theory Spec2Isabelle
  imports Complex_Main "HOL-Library.Stream"
begin

section \<open>Numbers\<close>

text \<open>
  The monitor of \<^verbatim>\<open>extrusion-anomaly-v2.jsx\<close> computes with JavaScript Numbers.
  They are modelled as exact reals; a Number that may be \<^verbatim>\<open>NaN\<close> (the result of
  arithmetic on \<^verbatim>\<open>undefined\<close>, a property that is absent) is a \<open>real option\<close>
  with \<open>None\<close> for \<^verbatim>\<open>NaN\<close>. The binary rounding of IEEE doubles is not modelled;
  the decimal rounding that the program asks for with \<^verbatim>\<open>toFixed\<close> is,
  and the double rounding of each operation is where the reconstruction is computed
  (see below).
  HOL's division gives \<open>x / 0 = 0\<close>; a division of the program whose divisor is computed
  is \<open>ndiv\<close>, which gives \<^verbatim>\<open>NaN\<close> for a zero divisor, as \<^verbatim>\<open>0 / 0\<close> does (the
  infinity of \<^verbatim>\<open>x / 0\<close> for another \<open>x\<close> is not told apart from it). The division by
  \<^verbatim>\<open>cfg.std\<close> is by a constant of \<open>PARAMS\<close>, none of which is zero. \<^verbatim>\<open>Math.sqrt\<close> of a
  negative number is \<^verbatim>\<open>NaN\<close>.
\<close>

type_synonym num = "real option"

definition nadd :: "num \<Rightarrow> num \<Rightarrow> num" where
  "nadd a b = (case a of None \<Rightarrow> None
               | Some x \<Rightarrow> (case b of None \<Rightarrow> None | Some y \<Rightarrow> Some (x + y)))"

definition nsub :: "num \<Rightarrow> num \<Rightarrow> num" where
  "nsub a b = (case a of None \<Rightarrow> None
               | Some x \<Rightarrow> (case b of None \<Rightarrow> None | Some y \<Rightarrow> Some (x - y)))"

definition nsquare :: "num \<Rightarrow> num" where
  "nsquare a = (case a of None \<Rightarrow> None | Some z \<Rightarrow> Some (z * z))"

definition nmul :: "num \<Rightarrow> num \<Rightarrow> num" where
  "nmul a b = (case a of None \<Rightarrow> None
               | Some x \<Rightarrow> (case b of None \<Rightarrow> None | Some y \<Rightarrow> Some (x * y)))"

definition ndiv :: "num \<Rightarrow> num \<Rightarrow> num" where
  "ndiv a b = (case a of None \<Rightarrow> None
               | Some x \<Rightarrow> (case b of None \<Rightarrow> None
                            | Some y \<Rightarrow> if y = 0 then None else Some (x / y)))"

definition nsqrt :: "real \<Rightarrow> num" where
  "nsqrt x = (if x < 0 then None else Some (sqrt x))"

text \<open>
  \<^verbatim>\<open>parseFloat(x.toFixed(d))\<close>: \<^verbatim>\<open>toFixed\<close> picks the integer \<open>n\<close> with
  \<open>n / 10^d\<close> closest to \<open>\<bar>x\<bar>\<close>, the larger one on a tie, and keeps the sign;
  from \<open>10^21\<close> on it prints the number itself.
\<close>

definition toFixed :: "nat \<Rightarrow> real \<Rightarrow> real" where
  "toFixed d x =
     (if 10 ^ 21 \<le> \<bar>x\<bar> then x
      else if x < 0 then - (of_int \<lfloor>- x * 10 ^ d + 1 / 2\<rfloor> / 10 ^ d)
      else of_int \<lfloor>x * 10 ^ d + 1 / 2\<rfloor> / 10 ^ d)"

definition ntoFixed :: "nat \<Rightarrow> num \<Rightarrow> num" where
  "ntoFixed d a = (case a of None \<Rightarrow> None | Some x \<Rightarrow> Some (toFixed d x))"

section \<open>Process parameter configuration\<close>

datatype param_key =
  barrel_temp | screw_speed | melt_pressure | line_speed | die_pressure | wall_thickness

datatype unit_sym = DegC | RPM | Bar | MPerMin | MM

record param_cfg =
  label :: string
  unit :: unit_sym
  mean :: real
  std :: real
  ucl :: real
  lcl :: real
  color :: string
  short :: string

fun PARAMS :: "param_key \<Rightarrow> param_cfg" where
  "PARAMS barrel_temp = \<lparr>label = ''Barrel Temp'', unit = DegC, mean = 200, std = 3,
     ucl = 209, lcl = 191, color = ''#FF6B35'', short = ''BT''\<rparr>"
| "PARAMS screw_speed = \<lparr>label = ''Screw Speed'', unit = RPM, mean = 85, std = 2,
     ucl = 91, lcl = 79, color = ''#00C9A7'', short = ''SS''\<rparr>"
| "PARAMS melt_pressure = \<lparr>label = ''Melt Pressure'', unit = Bar, mean = 280, std = 8,
     ucl = 304, lcl = 256, color = ''#4CC9F0'', short = ''MP''\<rparr>"
| "PARAMS line_speed = \<lparr>label = ''Line Speed'', unit = MPerMin, mean = 45, std = 3 / 2,
     ucl = 99 / 2, lcl = 81 / 2, color = ''#FFD166'', short = ''LS''\<rparr>"
| "PARAMS die_pressure = \<lparr>label = ''Die Pressure'', unit = Bar, mean = 180, std = 5,
     ucl = 195, lcl = 165, color = ''#A78BFA'', short = ''DP''\<rparr>"
| "PARAMS wall_thickness = \<lparr>label = ''Wall Thickness'', unit = MM, mean = 12 / 10,
     std = 5 / 100, ucl = 135 / 100, lcl = 105 / 100, color = ''#F72585'', short = ''WT''\<rparr>"

definition PARAM_KEYS :: "param_key list" where
  "PARAM_KEYS =
     [barrel_temp, screw_speed, melt_pressure, line_speed, die_pressure, wall_thickness]"

definition T2_UCL :: real where
  "T2_UCL = 126 / 10"

section \<open>Snapshots\<close>

text \<open>
  A point is the object \<open>generatePoint\<close> builds: the tick index \<^verbatim>\<open>t\<close>, one reading
  per key (\<open>None\<close> when the property is absent, so that \<^verbatim>\<open>point[key]\<close> is
  \<^verbatim>\<open>undefined\<close>), the flags \<^verbatim>\<open>${key}_anomaly\<close>, and \<^verbatim>\<open>t2\<close>, \<^verbatim>\<open>t2_anomaly\<close>.
\<close>

record point =
  pt_t :: nat
  reading :: "param_key \<Rightarrow> real option"
  anomaly :: "param_key \<Rightarrow> bool"
  pt_t2 :: num
  t2_anomaly :: bool

text \<open>\<^verbatim>\<open>(point[k] - PARAMS[k].mean) / PARAMS[k].std\<close>\<close>

definition zscore :: "point \<Rightarrow> param_key \<Rightarrow> num" where
  "zscore p k = (case reading p k of None \<Rightarrow> None
                 | Some x \<Rightarrow> Some ((x - mean (PARAMS k)) / std (PARAMS k)))"

section \<open>Sorting with a comparator\<close>

text \<open>
  \<^verbatim>\<open>Array.prototype.sort\<close> with a comparator is stable. \<open>le a b\<close> says that
  the comparator's result on \<open>(a, b)\<close> is not positive, so that \<open>a\<close> need not move behind
  \<open>b\<close>. The elements are inserted from the right, each before the first element it need
  not follow.
\<close>

fun insort_cmp :: "('a \<Rightarrow> 'a \<Rightarrow> bool) \<Rightarrow> 'a \<Rightarrow> 'a list \<Rightarrow> 'a list" where
  "insort_cmp le x [] = [x]"
| "insort_cmp le x (y # ys) = (if le x y then x # y # ys else y # insort_cmp le x ys)"

definition sort_cmp :: "('a \<Rightarrow> 'a \<Rightarrow> bool) \<Rightarrow> 'a list \<Rightarrow> 'a list" where
  "sort_cmp le xs = foldr (insort_cmp le) xs []"

text \<open>
  The comparator \<^verbatim>\<open>(a, b) => b.v - a.v\<close> on two Numbers; a \<^verbatim>\<open>NaN\<close> result counts
  as zero.
\<close>

definition desc_le :: "num \<Rightarrow> num \<Rightarrow> bool" where
  "desc_le va vb = (case nsub vb va of None \<Rightarrow> True | Some d \<Rightarrow> d \<le> 0)"

section \<open>Contributions\<close>

datatype direction = HIGH | LOW

record contribution =
  c_key :: param_key
  c_label :: string
  c_fullLabel :: string
  c_value :: num
  c_z :: num
  c_direction :: direction
  c_color :: string

definition contribOf :: "point \<Rightarrow> param_key \<Rightarrow> contribution" where
  "contribOf p k =
     (let cfg = PARAMS k;
          z = zscore p k;
          contrib = nsquare z
      in \<lparr>c_key = k, c_label = short cfg, c_fullLabel = label cfg,
          c_value = ntoFixed 4 contrib,
          c_z = ntoFixed 3 z,
          c_direction = (case z of None \<Rightarrow> LOW | Some v \<Rightarrow> if v > 0 then HIGH else LOW),
          c_color = color cfg\<rparr>)"

definition computeContributions :: "point \<Rightarrow> contribution list" where
  "computeContributions p =
     sort_cmp (\<lambda>a b. desc_le (c_value a) (c_value b)) (map (contribOf p) PARAM_KEYS)"

text \<open>
  \<^verbatim>\<open>PARAM_KEYS.reduce((sum, k) => sum + z * z, 0)\<close>, skipping the key \<open>skip\<close>
  when there is one.
\<close>

definition t2Sum :: "point \<Rightarrow> param_key option \<Rightarrow> num" where
  "t2Sum p skip =
     fold (\<lambda>k sum. if Some k = skip then sum else nadd sum (nsquare (zscore p k)))
       PARAM_KEYS (Some 0)"

section \<open>Reconstruction-based contributions, in double precision\<close>

text \<open>
  The definitions above compute in exact reals. \<open>computeRBC\<close> subtracts two sums that
  differ by one term, where the rounding of each operation to a double does not cancel;
  so here every operation of the program is followed by that rounding.

  \<open>fl x\<close> is the double nearest to \<open>x\<close>, the one with the even mantissa on a tie:
  \<open>ulpOf\<close> searches, from 1, the power of two \<open>u\<close> with \<open>2^52 u \<le> \<bar>x\<bar> < 2^53 u\<close>, the
  spacing of the doubles around \<open>x\<close>, and \<open>x\<close> is rounded to a multiple of it. This is
  the rounding of IEEE 754 in the normal range of doubles, \<open>2^-1022 \<le> \<bar>x\<bar> < 2^1024\<close>.
  Zero and a smaller magnitude (the subnormal range) are left as they are, and above the
  range the rounding goes on where IEEE 754 gives an infinity. Neither matters to what
  is proved below: the readings are bounded there, so that no operation reaches
  \<open>2^1024\<close>; and a reading that differs from the mean of its parameter differs from
  it by at least \<open>2^-52\<close>, the means being at least 1.2, so that no operation has a
  non-zero result below \<open>2^-1022\<close>.
\<close>

definition roundEven :: "real \<Rightarrow> int" where
  "roundEven y =
     (let f = \<lfloor>y\<rfloor>; r = y - of_int f
      in if r < 1 / 2 then f else if 1 / 2 < r then f + 1 else if even f then f else f + 1)"

fun ulpOf :: "nat \<Rightarrow> real \<Rightarrow> real \<Rightarrow> real" where
  "ulpOf 0 u x = 0"
| "ulpOf (Suc n) u x =
     (if \<bar>x\<bar> < 2 ^ 52 * u then ulpOf n (u / 2) x
      else if 2 ^ 53 * u \<le> \<bar>x\<bar> then ulpOf n (2 * u) x
      else u)"

definition fl :: "real \<Rightarrow> real" where
  "fl x = (let u = ulpOf 1075 1 x in if u = 0 then x else of_int (roundEven (x / u)) * u)"










section \<open>Fault mode library\<close>

datatype severity = SevLOW | MEDIUM | SevHIGH | CRITICAL

text \<open>
  An entry of \<^verbatim>\<open>FAULT_MODES\<close>. The free texts \<^verbatim>\<open>mechanism\<close>, \<^verbatim>\<open>actions\<close> and
  \<^verbatim>\<open>references\<close> are shown by the panels and read by no computation; they are left out.
  The signature is the object literal, a map from keys to weights.
\<close>

record fault =
  f_name :: string
  f_param :: param_key
  f_delta :: real
  f_duration :: nat
  f_severity :: severity
  f_color :: string
  f_signature :: "param_key \<rightharpoonup> real"

definition DieWear :: fault where
  "DieWear = \<lparr>f_name = ''Die Wear'', f_param = die_pressure, f_delta = - 28,
     f_duration = 10, f_severity = SevHIGH, f_color = ''#ef4444'',
     f_signature = map_of [(die_pressure, 65 / 100), (melt_pressure, 18 / 100),
       (wall_thickness, 10 / 100), (line_speed, 4 / 100), (barrel_temp, 2 / 100),
       (screw_speed, 1 / 100)]\<rparr>"

definition ScrewSlip :: fault where
  "ScrewSlip = \<lparr>f_name = ''Screw Slip'', f_param = screw_speed, f_delta = - 12,
     f_duration = 6, f_severity = MEDIUM, f_color = ''#f97316'',
     f_signature = map_of [(screw_speed, 60 / 100), (melt_pressure, 20 / 100),
       (line_speed, 10 / 100), (barrel_temp, 6 / 100), (die_pressure, 3 / 100),
       (wall_thickness, 1 / 100)]\<rparr>"

definition TempSpike :: fault where
  "TempSpike = \<lparr>f_name = ''Temp Spike'', f_param = barrel_temp, f_delta = 22,
     f_duration = 5, f_severity = SevHIGH, f_color = ''#FF6B35'',
     f_signature = map_of [(barrel_temp, 70 / 100), (melt_pressure, 15 / 100),
       (screw_speed, 8 / 100), (die_pressure, 4 / 100), (line_speed, 2 / 100),
       (wall_thickness, 1 / 100)]\<rparr>"

definition PressureSurge :: fault where
  "PressureSurge = \<lparr>f_name = ''Pressure Surge'', f_param = melt_pressure, f_delta = 45,
     f_duration = 7, f_severity = SevHIGH, f_color = ''#4CC9F0'',
     f_signature = map_of [(melt_pressure, 62 / 100), (barrel_temp, 14 / 100),
       (die_pressure, 12 / 100), (screw_speed, 7 / 100), (wall_thickness, 3 / 100),
       (line_speed, 2 / 100)]\<rparr>"

definition LineSlowdown :: fault where
  "LineSlowdown = \<lparr>f_name = ''Line Slowdown'', f_param = line_speed, f_delta = - 8,
     f_duration = 8, f_severity = MEDIUM, f_color = ''#FFD166'',
     f_signature = map_of [(line_speed, 58 / 100), (wall_thickness, 22 / 100),
       (die_pressure, 10 / 100), (melt_pressure, 6 / 100), (screw_speed, 3 / 100),
       (barrel_temp, 1 / 100)]\<rparr>"

definition ThinWall :: fault where
  "ThinWall = \<lparr>f_name = ''Thin Wall'', f_param = wall_thickness, f_delta = - (18 / 100),
     f_duration = 6, f_severity = CRITICAL, f_color = ''#F72585'',
     f_signature = map_of [(wall_thickness, 68 / 100), (die_pressure, 14 / 100),
       (line_speed, 10 / 100), (melt_pressure, 5 / 100), (screw_speed, 2 / 100),
       (barrel_temp, 1 / 100)]\<rparr>"

definition FAULT_MODES :: "fault list" where
  "FAULT_MODES = [DieWear, ScrewSlip, TempSpike, PressureSurge, LineSlowdown, ThinWall]"

section \<open>Fault diagnosis engine\<close>

record diagnosis =
  d_fault :: fault
  confidence :: num

text \<open>\<^verbatim>\<open>contributions.reduce((s, c) => s + c.value, 0)\<close>\<close>

definition valuesSum :: "contribution list \<Rightarrow> num" where
  "valuesSum cs = fold (\<lambda>c s. nadd s (c_value c)) cs (Some 0)"

text \<open>\<^verbatim>\<open>... || 1\<close>: a sum that is zero or \<^verbatim>\<open>NaN\<close> is replaced by one.\<close>

definition totalOf :: "contribution list \<Rightarrow> real" where
  "totalOf cs =
     (case valuesSum cs of
        None \<Rightarrow> 1
      | Some s \<Rightarrow> if s = 0 then 1 else s)"

text \<open>
  \<^verbatim>\<open>contributions.forEach(c => { norm[c.key] = c.value / total; })\<close>: a later entry
  with the same key overwrites an earlier one.
\<close>

definition normOf :: "contribution list \<Rightarrow> param_key \<rightharpoonup> num" where
  "normOf cs =
     (let total = totalOf cs
      in fold (\<lambda>c nrm. nrm(c_key c \<mapsto> ndiv (c_value c) (Some total)))
           cs Map.empty)"

text \<open>\<^verbatim>\<open>x || 0\<close> on a Number that may be absent or \<^verbatim>\<open>NaN\<close>.\<close>

definition orZero :: "num option \<Rightarrow> real" where
  "orZero x = (case x of None \<Rightarrow> 0 | Some None \<Rightarrow> 0 | Some (Some v) \<Rightarrow> v)"

text \<open>
  The body of the loop over \<open>PARAM_KEYS\<close> inside \<^verbatim>\<open>FAULT_MODES.map\<close>: it
  accumulates \<open>(dot, magFault, magObs)\<close>.
\<close>

definition scoreStep ::
  "(param_key \<rightharpoonup> num) \<Rightarrow> fault \<Rightarrow> param_key \<Rightarrow> real \<times> real \<times> real \<Rightarrow> real \<times> real \<times> real" where
  "scoreStep nrm flt k acc =
     (let (dot, magFault, magObs) = acc;
          fo = orZero (map_option Some (f_signature flt k));
          ob = orZero (nrm k)
      in (dot + fo * ob, magFault + fo * fo, magObs + ob * ob))"

text \<open>\<^verbatim>\<open>dot / (Math.sqrt(magFault) * Math.sqrt(magObs))\<close>\<close>

definition cosine :: "real \<Rightarrow> real \<Rightarrow> real \<Rightarrow> num" where
  "cosine dot magFault magObs = ndiv (Some dot) (nmul (nsqrt magFault) (nsqrt magObs))"

text \<open>
  \<^verbatim>\<open>magFault && magObs ? ... : 0\<close>: the division is made only when both magnitudes
  are non-zero; otherwise the similarity is zero.
\<close>

definition similarityOf :: "real \<Rightarrow> real \<Rightarrow> real \<Rightarrow> num" where
  "similarityOf dot magFault magObs =
     (if magFault \<noteq> 0 \<and> magObs \<noteq> 0 then cosine dot magFault magObs else Some 0)"

definition scoreOf :: "(param_key \<rightharpoonup> num) \<Rightarrow> fault \<Rightarrow> diagnosis" where
  "scoreOf nrm flt =
     (let (dot, magFault, magObs) = fold (scoreStep nrm flt) PARAM_KEYS (0, 0, 0);
          similarity = similarityOf dot magFault magObs
      in \<lparr>d_fault = flt, confidence = ntoFixed 1 (nmul similarity (Some 100))\<rparr>)"

definition diagnoseFault :: "contribution list \<Rightarrow> diagnosis list" where
  "diagnoseFault contributions =
     (let nrm = normOf contributions;
          scores = map (scoreOf nrm) FAULT_MODES
      in sort_cmp (\<lambda>a b. desc_le (confidence a) (confidence b)) scores)"

section \<open>Data generator\<close>

text \<open>
  \<^verbatim>\<open>Math.random()\<close> reads the next element of a stream of draws. The raw value of a
  key is the mean plus noise, plus the bias of the active fault on its driver parameter,
  which takes one more draw.
\<close>

definition rawVal :: "fault option \<Rightarrow> param_key \<Rightarrow> real stream \<Rightarrow> real \<times> real stream" where
  "rawVal activeFault key g =
     (let cfg = PARAMS key;
          val = mean cfg + (shd g - 1 / 2) * 2 * std cfg;
          g1 = stl g
      in case activeFault of
           None \<Rightarrow> (val, g1)
         | Some f \<Rightarrow>
             if f_param f = key
             then (val + f_delta f * (3 / 4 + shd g1 * (1 / 2)), stl g1)
             else (val, g1))"

definition genStep :: "fault option \<Rightarrow> param_key \<Rightarrow> point \<times> real stream \<Rightarrow> point \<times> real stream" where
  "genStep activeFault key pg =
     (let (p, g) = pg;
          cfg = PARAMS key;
          (val, g') = rawVal activeFault key g
      in (p\<lparr>reading := (reading p)(key \<mapsto> toFixed 3 val),
            anomaly := (anomaly p)(key := (val > ucl cfg \<or> val < lcl cfg))\<rparr>, g'))"

definition generatePoint :: "nat \<Rightarrow> fault option \<Rightarrow> real stream \<Rightarrow> point \<times> real stream" where
  "generatePoint t activeFault g =
     (let (p, g') = fold (genStep activeFault) PARAM_KEYS
                      (\<lparr>pt_t = t, reading = Map.empty, anomaly = (\<lambda>k. False),
                        pt_t2 = None, t2_anomaly = False\<rparr>, g);
          t2 = t2Sum p None
      in (p\<lparr>pt_t2 := ntoFixed 3 t2,
            t2_anomaly := (case t2 of None \<Rightarrow> False | Some v \<Rightarrow> v > T2_UCL)\<rparr>, g'))"

text \<open>
  The raw values \<^verbatim>\<open>val\<close> of one call of \<open>generatePoint\<close>, before rounding: the same
  loop as \<open>genStep\<close>, keeping \<^verbatim>\<open>val\<close> for each key.
\<close>

definition rawStep ::
  "fault option \<Rightarrow> param_key \<Rightarrow> (param_key \<Rightarrow> real) \<times> real stream \<Rightarrow> (param_key \<Rightarrow> real) \<times> real stream" where
  "rawStep activeFault key mg =
     (let (m, g) = mg;
          (val, g') = rawVal activeFault key g
      in (m(key := val), g'))"

definition rawVals :: "fault option \<Rightarrow> real stream \<Rightarrow> param_key \<Rightarrow> real" where
  "rawVals activeFault g = fst (fold (rawStep activeFault) PARAM_KEYS ((\<lambda>k. 0), g))"

section \<open>Stream controller\<close>

text \<open>
  An alarm event: \<^verbatim>\<open>param\<close> is the label of the parameter (\<open>None\<close> for the joint
  statistic), \<^verbatim>\<open>val\<close> the number that is printed, \<^verbatim>\<open>id\<close> the pair of tick and key.
\<close>

record alarm =
  a_t :: nat
  a_param :: "string option"
  a_val :: num
  a_unit :: "unit_sym option"
  a_id :: "nat \<times> param_key option"

text \<open>
  The state of \<open>ExtrusionAnomalyMonitor\<close> that the controller reads and writes: the React
  state \<^verbatim>\<open>data\<close>, \<^verbatim>\<open>running\<close>, \<^verbatim>\<open>activeFault\<close>, \<^verbatim>\<open>faultCountdown\<close>, \<^verbatim>\<open>alarmLog\<close>,
  \<^verbatim>\<open>tickCount\<close>, the refs \<^verbatim>\<open>tRef\<close>, \<^verbatim>\<open>faultRef\<close>, \<^verbatim>\<open>faultCdRef\<close>, and the stream of
  random draws. The timer calls \<open>tick\<close> every 800 ms while \<^verbatim>\<open>running\<close> holds; here each
  call is explicit.
\<close>

record controller =
  data :: "point list"
  running :: bool
  activeFault :: "fault option"
  faultCountdown :: nat
  alarmLog :: "alarm list"
  tickCount :: nat
  tRef :: nat
  faultRef :: "fault option"
  faultCdRef :: nat
  rng :: "real stream"

text \<open>\<^verbatim>\<open>xs.slice(-n)\<close>\<close>

definition sliceLast :: "nat \<Rightarrow> 'a list \<Rightarrow> 'a list" where
  "sliceLast n xs = drop (length xs - n) xs"

definition countdownStep :: "controller \<Rightarrow> controller" where
  "countdownStep st =
     (if faultCdRef st > 1
      then st\<lparr>faultCdRef := faultCdRef st - 1, faultCountdown := faultCdRef st - 1\<rparr>
      else if faultCdRef st = 1
      then st\<lparr>faultCdRef := 0, faultRef := None, activeFault := None, faultCountdown := 0\<rparr>
      else st)"

definition paramAlarm :: "nat \<Rightarrow> point \<Rightarrow> param_key \<Rightarrow> alarm" where
  "paramAlarm t pt k =
     \<lparr>a_t = t, a_param = Some (label (PARAMS k)),
      a_val = ntoFixed (if unit (PARAMS k) = MM then 3 else 1) (reading pt k),
      a_unit = Some (unit (PARAMS k)), a_id = (t, Some k)\<rparr>"

definition newAlarmsOf :: "nat \<Rightarrow> point \<Rightarrow> alarm list" where
  "newAlarmsOf t pt =
     concat (map (\<lambda>k. if anomaly pt k then [paramAlarm t pt k] else []) PARAM_KEYS)
     @ (if t2_anomaly pt
        then [\<lparr>a_t = t, a_param = None, a_val = ntoFixed 2 (pt_t2 pt),
               a_unit = None, a_id = (t, None)\<rparr>]
        else [])"

text \<open>
  \<^verbatim>\<open>tick\<close>: advance \<^verbatim>\<open>tRef\<close>, step the countdown, generate the point with the fault
  that is then active, append it to \<^verbatim>\<open>data\<close>, log the alarms, set \<^verbatim>\<open>tickCount\<close>.
\<close>

definition tick :: "controller \<Rightarrow> controller" where
  "tick st =
     (let t = tRef st + 1;
          st1 = countdownStep (st\<lparr>tRef := t\<rparr>);
          (pt, g') = generatePoint t (faultRef st1) (rng st1);
          st2 = st1\<lparr>rng := g', data := sliceLast 120 (data st1 @ [pt])\<rparr>;
          newAlarms = newAlarmsOf t pt;
          st3 = (if newAlarms \<noteq> []
                 then st2\<lparr>alarmLog := take 80 (newAlarms @ alarmLog st2)\<rparr>
                 else st2)
      in st3\<lparr>tickCount := t\<rparr>)"

definition injectFault :: "fault \<Rightarrow> controller \<Rightarrow> controller" where
  "injectFault flt st =
     st\<lparr>faultRef := Some flt, faultCdRef := f_duration flt,
        activeFault := Some flt, faultCountdown := f_duration flt\<rparr>"

text \<open>The fault buttons: \<^verbatim>\<open>onClick={() => running && injectFault(fault)}\<close>\<close>

definition clickInject :: "fault \<Rightarrow> controller \<Rightarrow> controller" where
  "clickInject flt st = (if running st then injectFault flt st else st)"

definition reset :: "controller \<Rightarrow> controller" where
  "reset st =
     st\<lparr>running := False, data := [], alarmLog := [], activeFault := None,
        faultCountdown := 0, tRef := 0, faultRef := None, faultCdRef := 0,
        tickCount := 0\<rparr>"

definition initial :: "real stream \<Rightarrow> controller" where
  "initial g =
     \<lparr>data = [], running = False, activeFault = None, faultCountdown = 0,
      alarmLog = [], tickCount = 0, tRef = 0, faultRef = None, faultCdRef = 0, rng = g\<rparr>"

text \<open>
  The fault that a tick in state \<open>st\<close> passes to \<open>generatePoint\<close>, the point it gets
  back, and the points of \<open>n\<close> successive ticks in the order they are produced.
\<close>

definition tickFault :: "controller \<Rightarrow> fault option" where
  "tickFault st = faultRef (countdownStep (st\<lparr>tRef := tRef st + 1\<rparr>))"

definition tickPoint :: "controller \<Rightarrow> point" where
  "tickPoint st = fst (generatePoint (tRef st + 1) (tickFault st) (rng st))"

fun points :: "nat \<Rightarrow> controller \<Rightarrow> point list" where
  "points 0 st = []"
| "points (Suc n) st = tickPoint st # points n (tick st)"

text \<open>The start and stop button: \<^verbatim>\<open>setRunning(r => !r)\<close>\<close>

definition toggleRunning :: "controller \<Rightarrow> controller" where
  "toggleRunning st = st\<lparr>running := \<not> running st\<rparr>"

section \<open>Properties of the comparator sort\<close>

lemma set_insort_cmp: "set (insort_cmp le x ys) = insert x (set ys)"
  by (induction ys) auto

lemma set_sort_cmp: "set (sort_cmp le xs) = set xs"
  unfolding sort_cmp_def by (induction xs) (simp_all add: set_insort_cmp)







lemma filter_insort_cmp_key:
  assumes "\<And>a b. f a = f b \<Longrightarrow> le a b"
  shows "filter (\<lambda>d. f d = s) (insort_cmp le x ys) =
     (if f x = s then x # filter (\<lambda>d. f d = s) ys else filter (\<lambda>d. f d = s) ys)"
  using assms by (induction ys) auto

lemma filter_sort_cmp_key:
  assumes "\<And>a b. f a = f b \<Longrightarrow> le a b"
  shows "filter (\<lambda>d. f d = s) (sort_cmp le xs) = filter (\<lambda>d. f d = s) xs"
  unfolding sort_cmp_def by (induction xs) (simp_all add: filter_insort_cmp_key [of f le, OF assms])

lemma sum_list_insort_cmp:
  "sum_list (map f (insort_cmp le x ys)) = (f x :: real) + sum_list (map f ys)"
  by (induction ys) auto

lemma sum_list_sort_cmp: "sum_list (map f (sort_cmp le xs)) = (sum_list (map f xs) :: real)"
  unfolding sort_cmp_def by (induction xs) (simp_all add: sum_list_insort_cmp)

lemma sorted_insort_cmp_desc:
  "sorted_wrt (\<lambda>a b. (f b :: real) \<le> f a) ys \<Longrightarrow>
   sorted_wrt (\<lambda>a b. f b \<le> f a) (insort_cmp (\<lambda>a b. f b \<le> f a) x ys)"
  by (induction ys) (auto simp: set_insort_cmp)

lemma sorted_sort_cmp_desc:
  "sorted_wrt (\<lambda>a b. (f b :: real) \<le> f a) (sort_cmp (\<lambda>a b. f b \<le> f a) xs)"
  unfolding sort_cmp_def by (induction xs) (simp_all add: sorted_insort_cmp_desc)

lemma insort_cmp_head: "(\<And>y. y \<in> set ys \<Longrightarrow> le x y) \<Longrightarrow> insort_cmp le x ys = x # ys"
  by (cases ys) auto

lemma sort_cmp_all_le:
  "(\<And>x y. x \<in> set xs \<Longrightarrow> y \<in> set xs \<Longrightarrow> le x y) \<Longrightarrow> sort_cmp le xs = xs"
  unfolding sort_cmp_def
proof (induction xs)
  case Nil
  show ?case by simp
next
  case (Cons x xs)
  have "foldr (insort_cmp le) xs [] = xs"
    by (rule Cons.IH) (simp add: Cons.prems)
  then show ?case
    by (simp add: insort_cmp_head Cons.prems)
qed

section \<open>Properties of rounding\<close>

lemma toFixed_zero: "toFixed d 0 = 0"
  by (simp add: toFixed_def)

section \<open>Properties of the data generator\<close>

lemma all_keys: "k \<in> set PARAM_KEYS"
  by (cases k) (simp_all add: PARAM_KEYS_def)


lemma fold_genStep_rawStep:
  assumes "fold (genStep af) ks (p, g) = (p', g')"
      and "fold (rawStep af) ks (m, g) = (m', g'')"
      and "\<forall>k\<in>S. reading p k = Some (toFixed 3 (m k)) \<and> anomaly p k = (m k > ucl (PARAMS k) \<or> m k < lcl (PARAMS k))"
  shows "g' = g'' \<and> pt_t p' = pt_t p
       \<and> (\<forall>k\<in>S \<union> set ks. reading p' k = Some (toFixed 3 (m' k))
              \<and> anomaly p' k = (m' k > ucl (PARAMS k) \<or> m' k < lcl (PARAMS k)))"
  using assms
proof (induction ks arbitrary: p g m S)
  case Nil
  then show ?case by simp
next
  case (Cons a ks)
  obtain v h where rv: "rawVal af a g = (v, h)" by (cases "rawVal af a g")
  let ?p1 = "p\<lparr>reading := (reading p)(a \<mapsto> toFixed 3 v),
            anomaly := (anomaly p)(a := (v > ucl (PARAMS a) \<or> v < lcl (PARAMS a)))\<rparr>"
  have g1: "genStep af a (p, g) = (?p1, h)" by (simp add: genStep_def rv Let_def)
  have r1: "rawStep af a (m, g) = (m(a := v), h)" by (simp add: rawStep_def rv)
  have A: "fold (genStep af) ks (?p1, h) = (p', g')" using Cons.prems(1) by (simp add: g1)
  have B: "fold (rawStep af) ks (m(a := v), h) = (m', g'')" using Cons.prems(2) by (simp add: r1)
  have C: "\<forall>k\<in>insert a S. reading ?p1 k = Some (toFixed 3 ((m(a := v)) k))
            \<and> anomaly ?p1 k = ((m(a := v)) k > ucl (PARAMS k) \<or> (m(a := v)) k < lcl (PARAMS k))"
    using Cons.prems(3) by auto
  from Cons.IH [OF A B C] show ?case by auto
qed

lemma generatePoint_fields:
  "reading (fst (generatePoint t af g)) k = Some (toFixed 3 (rawVals af g k))"
  "anomaly (fst (generatePoint t af g)) k
     = (rawVals af g k > ucl (PARAMS k) \<or> rawVals af g k < lcl (PARAMS k))"
  "pt_t (fst (generatePoint t af g)) = t"
proof -
  let ?p0 = "\<lparr>pt_t = t, reading = Map.empty, anomaly = (\<lambda>k. False), pt_t2 = None, t2_anomaly = False\<rparr>"
  obtain p' g' where A: "fold (genStep af) PARAM_KEYS (?p0, g) = (p', g')"
    by (cases "fold (genStep af) PARAM_KEYS (?p0, g)")
  obtain m' g'' where B: "fold (rawStep af) PARAM_KEYS ((\<lambda>k. 0), g) = (m', g'')"
    by (cases "fold (rawStep af) PARAM_KEYS ((\<lambda>k. 0), g)")
  have C: "\<forall>k\<in>{}. reading ?p0 k = Some (toFixed 3 ((\<lambda>k. 0) k))
       \<and> anomaly ?p0 k = ((\<lambda>k. 0::real) k > ucl (PARAMS k) \<or> (\<lambda>k. 0::real) k < lcl (PARAMS k))"
    by simp
  from fold_genStep_rawStep [OF A B C] all_keys
  have D: "reading p' k = Some (toFixed 3 (m' k))"
      "anomaly p' k = (m' k > ucl (PARAMS k) \<or> m' k < lcl (PARAMS k))" "pt_t p' = t"
    by auto
  have m': "rawVals af g = m'" by (simp add: rawVals_def B)
  show "reading (fst (generatePoint t af g)) k = Some (toFixed 3 (rawVals af g k))"
    by (simp add: generatePoint_def A Let_def D m')
  show "anomaly (fst (generatePoint t af g)) k
     = (rawVals af g k > ucl (PARAMS k) \<or> rawVals af g k < lcl (PARAMS k))"
    by (simp add: generatePoint_def A Let_def D m')
  show "pt_t (fst (generatePoint t af g)) = t"
    by (simp add: generatePoint_def A Let_def D)
qed

lemma zscore_cong: "reading p = reading q \<Longrightarrow> zscore p = zscore q"
  by (rule ext) (simp add: zscore_def)

lemma t2Sum_cong: "reading p = reading q \<Longrightarrow> t2Sum p skip = t2Sum q skip"
proof -
  assume "reading p = reading q"
  then have z: "zscore p = zscore q" by (rule zscore_cong)
  show ?thesis by (simp only: t2Sum_def z)
qed

lemma generatePoint_t2:
  "pt_t2 (fst (generatePoint t af g)) = ntoFixed 3 (t2Sum (fst (generatePoint t af g)) None)"
  "t2_anomaly (fst (generatePoint t af g))
     = (case t2Sum (fst (generatePoint t af g)) None of None \<Rightarrow> False | Some v \<Rightarrow> v > T2_UCL)"
proof -
  let ?p0 = "\<lparr>pt_t = t, reading = Map.empty, anomaly = (\<lambda>k. False), pt_t2 = None, t2_anomaly = False\<rparr>"
  obtain p' g' where A: "fold (genStep af) PARAM_KEYS (?p0, g) = (p', g')"
    by (cases "fold (genStep af) PARAM_KEYS (?p0, g)")
  have R: "reading (fst (generatePoint t af g)) = reading p'"
    by (simp add: generatePoint_def A Let_def)
  show "pt_t2 (fst (generatePoint t af g)) = ntoFixed 3 (t2Sum (fst (generatePoint t af g)) None)"
    unfolding t2Sum_cong [OF R] by (simp add: generatePoint_def A Let_def)
  show "t2_anomaly (fst (generatePoint t af g))
     = (case t2Sum (fst (generatePoint t af g)) None of None \<Rightarrow> False | Some v \<Rightarrow> v > T2_UCL)"
    unfolding t2Sum_cong [OF R] by (simp add: generatePoint_def A Let_def)
qed

lemma generatePoint_complete: "reading (fst (generatePoint t af g)) k \<noteq> None"
  by (simp add: generatePoint_fields)

lemma rawVals_nominal: "rawVals None (sconst (1 / 2)) k = mean (PARAMS k)"
  by (cases k) (simp_all add: rawVals_def PARAM_KEYS_def rawStep_def rawVal_def)

section \<open>Contributions and reconstruction\<close>





lemma complete_readings:
  assumes "\<forall>j. reading p j \<noteq> None"
  shows "\<exists>a b c d e f. reading p barrel_temp = Some a \<and> reading p screw_speed = Some b
     \<and> reading p melt_pressure = Some c \<and> reading p line_speed = Some d
     \<and> reading p die_pressure = Some e \<and> reading p wall_thickness = Some f"
  using assms by (meson option.exhaust)

lemma nominal_reading:
  "reading (fst (generatePoint t None (sconst (1 / 2)))) k = Some (mean (PARAMS k))"
  by (cases k) (simp_all add: generatePoint_fields rawVals_nominal toFixed_def)

lemma nominal_contributions_zero:
  "\<forall>c\<in>set (computeContributions (fst (generatePoint t None (sconst (1 / 2))))). c_value c = Some 0"
  by (auto simp: computeContributions_def set_sort_cmp contribOf_def zscore_def nominal_reading
        nsquare_def ntoFixed_def toFixed_zero Let_def)

lemma nominal_values:
  "map c_value (computeContributions (fst (generatePoint t None (sconst (1 / 2)))))
     = [Some 0, Some 0, Some 0, Some 0, Some 0, Some 0]"
proof -
  let ?p = "fst (generatePoint t None (sconst (1 / 2)))"
  have v: "c_value (contribOf ?p k) = Some 0" for k
    by (simp add: contribOf_def zscore_def nominal_reading nsquare_def ntoFixed_def
          toFixed_zero Let_def)
  have "computeContributions ?p = map (contribOf ?p) PARAM_KEYS"
    unfolding computeContributions_def
    by (rule sort_cmp_all_le) (auto simp: v desc_le_def nsub_def)
  then show ?thesis by (simp add: v PARAM_KEYS_def)
qed

section \<open>Diagnosis\<close>

lemma fold_nadd_zero:
  "\<forall>c\<in>set cs. c_value c = Some 0 \<Longrightarrow> valuesSum cs = Some 0"
  unfolding valuesSum_def by (induction cs) (simp_all add: nadd_def)

lemma totalOf_zero: "\<forall>c\<in>set cs. c_value c = Some 0 \<Longrightarrow> totalOf cs = 1"
  by (simp add: totalOf_def fold_nadd_zero)

lemma fold_norm_zero:
  "\<forall>c\<in>set cs. c_value c = Some 0 \<Longrightarrow> orZero (m k) = 0 \<Longrightarrow>
   orZero (fold (\<lambda>c nrm. nrm(c_key c \<mapsto> ndiv (c_value c) (Some tot))) cs m k) = 0"
  by (induction cs arbitrary: m) (simp_all add: orZero_def ndiv_def)

lemma normOf_zero: "\<forall>c\<in>set cs. c_value c = Some 0 \<Longrightarrow> orZero (normOf cs k) = 0"
  unfolding normOf_def Let_def by (rule fold_norm_zero) (simp_all add: orZero_def)

lemma fold_scoreStep_zero:
  "(\<And>k. orZero (nrm k) = 0) \<Longrightarrow>
   \<exists>mf. fold (scoreStep nrm flt) ks (0, m, 0) = (0, mf, 0)"
  by (induction ks arbitrary: m) (simp_all add: scoreStep_def Let_def)

lemma cosine_zero_norm: "cosine dot magFault 0 = None"
  by (simp add: cosine_def ndiv_def nmul_def nsqrt_def)

lemma scoreOf_zero:
  assumes "\<And>k. orZero (nrm k) = 0"
  shows "scoreOf nrm flt = \<lparr>d_fault = flt, confidence = Some 0\<rparr>"
proof -
  obtain mf where "fold (scoreStep nrm flt) PARAM_KEYS (0, 0, 0) = (0, mf, 0)"
    using fold_scoreStep_zero [of nrm flt PARAM_KEYS 0, OF assms] by blast
  then show ?thesis
    by (simp add: scoreOf_def similarityOf_def nmul_def ntoFixed_def toFixed_zero)
qed

lemma fold_scoreStep_nonneg:
  "fold (scoreStep nrm flt) ks (d, mf, mo) = (d', mf', mo') \<Longrightarrow> 0 \<le> mf \<Longrightarrow> 0 \<le> mo
   \<Longrightarrow> 0 \<le> mf' \<and> 0 \<le> mo'"
proof (induction ks arbitrary: d mf mo)
  case Nil
  then show ?case by simp
next
  case (Cons k ks)
  let ?fo = "orZero (map_option Some (f_signature flt k))"
  let ?ob = "orZero (nrm k)"
  have step: "scoreStep nrm flt k (d, mf, mo) = (d + ?fo * ?ob, mf + ?fo * ?fo, mo + ?ob * ?ob)"
    by (simp add: scoreStep_def Let_def)
  have "fold (scoreStep nrm flt) ks (d + ?fo * ?ob, mf + ?fo * ?fo, mo + ?ob * ?ob) = (d', mf', mo')"
    using Cons.prems(1) by (simp only: fold_simps o_apply step)
  moreover have "0 \<le> mf + ?fo * ?fo" "0 \<le> mo + ?ob * ?ob"
    using Cons.prems(2,3) by simp_all
  ultimately show ?case by (rule Cons.IH)
qed

lemma similarityOf_Some:
  "0 \<le> magFault \<Longrightarrow> 0 \<le> magObs \<Longrightarrow> \<exists>v. similarityOf dot magFault magObs = Some v"
  by (simp add: similarityOf_def cosine_def ndiv_def nmul_def nsqrt_def)

lemma confidence_scoreOf_Some: "\<exists>v. confidence (scoreOf nrm flt) = Some v"
proof -
  obtain d mf mo where f: "fold (scoreStep nrm flt) PARAM_KEYS (0, 0, 0) = (d, mf, mo)"
    by (cases "fold (scoreStep nrm flt) PARAM_KEYS (0, 0, 0)") auto
  have "0 \<le> mf \<and> 0 \<le> mo"
    by (rule fold_scoreStep_nonneg [OF f]) simp_all
  then obtain v where "similarityOf d mf mo = Some v"
    using similarityOf_Some [of mf mo d] by blast
  then show ?thesis
    by (simp add: scoreOf_def f nmul_def ntoFixed_def)
qed

lemma d_fault_scoreOf: "d_fault (scoreOf nrm flt) = flt"
  by (simp add: scoreOf_def Let_def split: prod.splits)

lemma insort_cmp_cong:
  "(\<And>y. y \<in> set ys \<Longrightarrow> le x y = le' x y) \<Longrightarrow> insort_cmp le x ys = insort_cmp le' x ys"
  by (induction ys) auto

lemma sort_cmp_cong:
  "(\<And>x y. x \<in> set xs \<Longrightarrow> y \<in> set xs \<Longrightarrow> le x y = le' x y)
   \<Longrightarrow> sort_cmp le xs = sort_cmp le' xs"
proof (induction xs)
  case Nil
  show ?case by (simp add: sort_cmp_def)
next
  case (Cons x xs)
  have ih: "sort_cmp le xs = sort_cmp le' xs"
    by (rule Cons.IH) (simp add: Cons.prems)
  have "insort_cmp le x (sort_cmp le' xs) = insort_cmp le' x (sort_cmp le' xs)"
    by (rule insort_cmp_cong) (simp add: set_sort_cmp Cons.prems)
  then show ?case
    using ih by (simp add: sort_cmp_def)
qed

lemma desc_le_Some: "desc_le (Some a) (Some b) = (b \<le> a)"
  by (simp add: desc_le_def nsub_def)

lemma desc_le_refl: "desc_le v v"
  by (cases v) (simp_all add: desc_le_def nsub_def)

lemma sorted_sort_cmp_desc_le:
  assumes "\<And>x. x \<in> set xs \<Longrightarrow> \<exists>v. f x = Some v"
  shows "sorted_wrt (\<lambda>a b. the (f b) \<le> the (f a)) (sort_cmp (\<lambda>a b. desc_le (f a) (f b)) xs)"
proof -
  have "sort_cmp (\<lambda>a b. desc_le (f a) (f b)) xs = sort_cmp (\<lambda>a b. the (f b) \<le> the (f a)) xs"
  proof (rule sort_cmp_cong)
    fix x y assume "x \<in> set xs" "y \<in> set xs"
    then obtain a b where "f x = Some a" "f y = Some b" using assms by blast
    then show "desc_le (f x) (f y) = (the (f y) \<le> the (f x))"
      by (simp add: desc_le_Some)
  qed
  then show ?thesis
    using sorted_sort_cmp_desc [of "\<lambda>x. the (f x)" xs] by simp
qed

section \<open>Claims about the pure components\<close>

text \<open>
  C3 (degenerate zero vector). When every entry of the contribution vector given to
  \<open>diagnoseFault\<close> has value zero, the result lists the six fault modes in catalog order,
  each with confidence zero. For each of them the dot product and the observed magnitude
  are zero; the division by the product of the norms would be \<^verbatim>\<open>0 / 0\<close>, that is
  \<^verbatim>\<open>NaN\<close>, and it is the guard on the magnitudes that makes the similarity zero.
\<close>

theorem diagnoseFault_zero_vector:
  assumes "\<forall>c\<in>set cs. c_value c = Some 0"
  shows "diagnoseFault cs = map (\<lambda>flt. \<lparr>d_fault = flt, confidence = Some 0\<rparr>) FAULT_MODES
       \<and> (\<exists>magFault. fold (scoreStep (normOf cs) flt) PARAM_KEYS (0, 0, 0) = (0, magFault, 0)
             \<and> cosine 0 magFault 0 = None
             \<and> similarityOf 0 magFault 0 = Some 0)"
proof
  have sc: "map (scoreOf (normOf cs)) FAULT_MODES
              = map (\<lambda>flt. \<lparr>d_fault = flt, confidence = Some 0\<rparr>) FAULT_MODES"
    by (simp add: scoreOf_zero normOf_zero assms)
  show "diagnoseFault cs = map (\<lambda>flt. \<lparr>d_fault = flt, confidence = Some 0\<rparr>) FAULT_MODES"
    unfolding diagnoseFault_def Let_def sc
    by (rule sort_cmp_all_le) (auto simp: desc_le_Some)
  obtain mf where "fold (scoreStep (normOf cs) flt) PARAM_KEYS (0, 0, 0) = (0, mf, 0)"
    using fold_scoreStep_zero [of "normOf cs" flt PARAM_KEYS 0] normOf_zero [OF assms]
    by blast
  then show "\<exists>magFault. fold (scoreStep (normOf cs) flt) PARAM_KEYS (0, 0, 0) = (0, magFault, 0)
             \<and> cosine 0 magFault 0 = None
             \<and> similarityOf 0 magFault 0 = Some 0"
    by (simp add: cosine_zero_norm similarityOf_def)
qed

theorem diagnoseFault_zero_vector_witness:
  "map c_value (computeContributions (fst (generatePoint 1 None (sconst (1 / 2)))))
        = [Some 0, Some 0, Some 0, Some 0, Some 0, Some 0]
   \<and> map confidence (diagnoseFault (computeContributions (fst (generatePoint 1 None (sconst (1 / 2))))))
        = [Some 0, Some 0, Some 0, Some 0, Some 0, Some 0]
   \<and> map d_fault (diagnoseFault (computeContributions (fst (generatePoint 1 None (sconst (1 / 2))))))
        = [DieWear, ScrewSlip, TempSpike, PressureSurge, LineSlowdown, ThinWall]"
  using diagnoseFault_zero_vector [OF nominal_contributions_zero [of 1]]
        nominal_values [of 1]
  by (simp add: FAULT_MODES_def)

text \<open>
  C7 (diagnosis tie-break). For every score \<open>s\<close>, the fault modes that \<open>diagnoseFault\<close>
  ranks with confidence \<open>s\<close> appear in the ranking in the order of the catalog
  \<open>FAULT_MODES\<close>; and the ranking is descending by confidence, no confidence being
  \<^verbatim>\<open>NaN\<close>.
\<close>

theorem diagnoseFault_tie_break:
  "map d_fault (filter (\<lambda>d. confidence d = s) (diagnoseFault cs))
     = filter (\<lambda>flt. confidence (scoreOf (normOf cs) flt) = s) FAULT_MODES
   \<and> (\<exists>vs. map confidence (diagnoseFault cs) = map Some vs \<and> sorted_wrt (\<lambda>a b. b \<le> a) vs)"
proof
  have "filter (\<lambda>d. confidence d = s) (diagnoseFault cs)
          = filter (\<lambda>d. confidence d = s) (map (scoreOf (normOf cs)) FAULT_MODES)"
    unfolding diagnoseFault_def Let_def
    by (rule filter_sort_cmp_key) (simp add: desc_le_refl)
  then show "map d_fault (filter (\<lambda>d. confidence d = s) (diagnoseFault cs))
     = filter (\<lambda>flt. confidence (scoreOf (normOf cs) flt) = s) FAULT_MODES"
    by (simp add: filter_map comp_def d_fault_scoreOf)
  have some: "\<exists>v. confidence d = Some v" if "d \<in> set (map (scoreOf (normOf cs)) FAULT_MODES)" for d
    using that confidence_scoreOf_Some by auto
  have srt: "sorted_wrt (\<lambda>a b. the (confidence b) \<le> the (confidence a)) (diagnoseFault cs)"
    unfolding diagnoseFault_def Let_def
    by (rule sorted_sort_cmp_desc_le) (rule some)
  have all: "\<forall>d\<in>set (diagnoseFault cs). \<exists>v. confidence d = Some v"
    using some by (simp add: diagnoseFault_def Let_def set_sort_cmp)
  have m: "map confidence (diagnoseFault cs) = map Some (map (\<lambda>d. the (confidence d)) (diagnoseFault cs))"
    using all by (auto simp: comp_def)
  have "sorted_wrt (\<lambda>a b. b \<le> a) (map (\<lambda>d. the (confidence d)) (diagnoseFault cs))"
    using srt by (simp add: sorted_wrt_map)
  with m show "\<exists>vs. map confidence (diagnoseFault cs) = map Some vs \<and> sorted_wrt (\<lambda>a b. b \<le> a) vs"
    by blast
qed

theorem diagnoseFault_tie_break_witness:
  "map d_fault (filter (\<lambda>d. confidence d = Some 0)
      (diagnoseFault (computeContributions (fst (generatePoint 1 None (sconst (1 / 2)))))))
     = FAULT_MODES"
  using diagnoseFault_tie_break
          [of "Some 0" "computeContributions (fst (generatePoint 1 None (sconst (1 / 2))))"]
  by (simp add: scoreOf_zero normOf_zero nominal_contributions_zero)



section \<open>Reconstruction on doubles\<close>


lemma roundEven_nonneg: "0 \<le> y \<Longrightarrow> 0 \<le> roundEven y"
  by (auto simp: roundEven_def Let_def)

lemma ulpOf_bounds:
  "0 < u \<Longrightarrow> ulpOf n u x = r \<Longrightarrow> r \<noteq> 0 \<Longrightarrow> 0 < r \<and> 2 ^ 52 * r \<le> \<bar>x\<bar> \<and> \<bar>x\<bar> < 2 ^ 53 * r"
proof (induction n arbitrary: u)
  case 0
  then show ?case by simp
next
  case (Suc n)
  show ?case
  proof (cases "\<bar>x\<bar> < 2 ^ 52 * u")
    case True
    then have "ulpOf n (u / 2) x = r" using Suc.prems(2) by simp
    moreover have "0 < u / 2" using Suc.prems(1) by simp
    ultimately show ?thesis using Suc.IH Suc.prems(3) by blast
  next
    case low: False
    show ?thesis
    proof (cases "2 ^ 53 * u \<le> \<bar>x\<bar>")
      case True
      then have "ulpOf n (2 * u) x = r" using Suc.prems(2) low by simp
      moreover have "0 < 2 * u" using Suc.prems(1) by simp
      ultimately show ?thesis using Suc.IH Suc.prems(3) by blast
    next
      case False
      then have "r = u" using Suc.prems(2) low by simp
      then show ?thesis using low False Suc.prems(1) by simp
    qed
  qed
qed



lemma fl_nonneg: "0 \<le> x \<Longrightarrow> 0 \<le> fl x"
proof (cases "ulpOf 1075 1 x = 0")
  case True
  assume "0 \<le> x"
  then show ?thesis using True by (simp add: fl_def)
next
  case False
  assume x: "0 \<le> x"
  define r where "r = ulpOf 1075 1 x"
  have b: "0 < r \<and> 2 ^ 52 * r \<le> \<bar>x\<bar> \<and> \<bar>x\<bar> < 2 ^ 53 * r"
    by (rule ulpOf_bounds [of 1 1075 x]) (use False in \<open>simp_all add: r_def\<close>)
  have f: "fl x = of_int (roundEven (x / r)) * r"
    using False by (simp add: fl_def r_def Let_def)
  have "0 \<le> roundEven (x / r)"
    by (rule roundEven_nonneg) (use x b in simp)
  then show ?thesis
    using b by (simp add: f)
qed




lemma fold_fl_add_nonneg:
  fixes s :: real
  shows "\<forall>a\<in>set xs. 0 \<le> a \<Longrightarrow> 0 \<le> s \<Longrightarrow> 0 \<le> fold (\<lambda>a s. fl (s + a)) xs s"
  by (induction xs arbitrary: s) (simp_all add: fl_nonneg)















section \<open>Rounding and the decomposition identity\<close>

lemma toFixed_nonneg_error:
  fixes x :: real
  assumes "0 \<le> x"
  shows "\<bar>of_int \<lfloor>x * 10 ^ d + 1 / 2\<rfloor> / 10 ^ d - x\<bar> \<le> 1 / (2 * 10 ^ d)"
proof -
  let ?n = "\<lfloor>x * 10 ^ d + 1 / 2\<rfloor>"
  have p: "(0::real) < 10 ^ d" by simp
  have a: "of_int ?n \<le> x * 10 ^ d + 1 / 2" by (rule of_int_floor_le)
  have b: "x * 10 ^ d + 1 / 2 < of_int ?n + 1"
    using floor_correct [of "x * 10 ^ d + 1 / 2"] by simp
  have h: "\<bar>of_int ?n - x * 10 ^ d\<bar> \<le> 1 / 2" using a b by linarith
  have "\<bar>of_int ?n - x * 10 ^ d\<bar> / 10 ^ d \<le> (1 / 2) / 10 ^ d"
    by (rule divide_right_mono [OF h]) simp
  moreover have "\<bar>of_int ?n - x * 10 ^ d\<bar> / 10 ^ d = \<bar>of_int ?n / 10 ^ d - x\<bar>"
  proof -
    have "of_int ?n / 10 ^ d - x = (of_int ?n - x * 10 ^ d) / 10 ^ d"
      by (simp add: diff_divide_distrib)
    then show ?thesis by (simp add: abs_divide del: of_int_diff)
  qed
  ultimately show ?thesis by simp
qed

lemma toFixed_error: "\<bar>toFixed d x - x\<bar> \<le> 1 / (2 * 10 ^ d)"
proof (cases "10 ^ 21 \<le> \<bar>x\<bar>")
  case True
  then show ?thesis by (simp add: toFixed_def)
next
  case big: False
  show ?thesis
  proof (cases "x < 0")
    case True
    have "\<bar>of_int \<lfloor>(- x) * 10 ^ d + 1 / 2\<rfloor> / 10 ^ d - (- x)\<bar> \<le> 1 / (2 * 10 ^ d)"
      by (rule toFixed_nonneg_error) (use True in simp)
    moreover have "toFixed d x = - (of_int \<lfloor>(- x) * 10 ^ d + 1 / 2\<rfloor> / 10 ^ d)"
      using True big by (simp add: toFixed_def)
    ultimately show ?thesis by (simp add: abs_minus_commute)
  next
    case False
    have "\<bar>of_int \<lfloor>x * 10 ^ d + 1 / 2\<rfloor> / 10 ^ d - x\<bar> \<le> 1 / (2 * 10 ^ d)"
      by (rule toFixed_nonneg_error) (use False in simp)
    moreover have "toFixed d x = of_int \<lfloor>x * 10 ^ d + 1 / 2\<rfloor> / 10 ^ d"
      using False big by (simp add: toFixed_def)
    ultimately show ?thesis by simp
  qed
qed

lemma fold_nadd_Some:
  "\<forall>c\<in>set cs. c_value c \<noteq> None \<Longrightarrow>
   fold (\<lambda>c s. nadd s (c_value c)) cs (Some a)
     = Some (a + sum_list (map (\<lambda>c. the (c_value c)) cs))"
  by (induction cs arbitrary: a) (auto simp: nadd_def)

lemma valuesSum_Some:
  "\<forall>c\<in>set cs. c_value c \<noteq> None \<Longrightarrow>
   valuesSum cs = Some (sum_list (map (\<lambda>c. the (c_value c)) cs))"
  unfolding valuesSum_def by (simp add: fold_nadd_Some)

lemma c_value_contribOf:
  "reading p k \<noteq> None \<Longrightarrow>
   c_value (contribOf p k)
     = Some (toFixed 4 (((the (reading p k) - mean (PARAMS k)) / std (PARAMS k))\<^sup>2))"
  by (auto simp: contribOf_def Let_def zscore_def nsquare_def ntoFixed_def power2_eq_square)

lemma valuesSum_computeContributions:
  assumes "\<forall>j. reading p j \<noteq> None"
  shows "valuesSum (computeContributions p)
     = Some (\<Sum>k\<leftarrow>PARAM_KEYS. toFixed 4 (((the (reading p k) - mean (PARAMS k)) / std (PARAMS k))\<^sup>2))"
proof -
  have "\<forall>c\<in>set (computeContributions p). c_value c \<noteq> None"
    by (auto simp: computeContributions_def set_sort_cmp c_value_contribOf assms)
  then have "valuesSum (computeContributions p)
      = Some (sum_list (map (\<lambda>c. the (c_value c)) (computeContributions p)))"
    by (rule valuesSum_Some)
  also have "sum_list (map (\<lambda>c. the (c_value c)) (computeContributions p))
      = sum_list (map (\<lambda>c. the (c_value c)) (map (contribOf p) PARAM_KEYS))"
    unfolding computeContributions_def by (rule sum_list_sort_cmp)
  also have "\<dots> = (\<Sum>k\<leftarrow>PARAM_KEYS. toFixed 4 (((the (reading p k) - mean (PARAMS k)) / std (PARAMS k))\<^sup>2))"
    by (simp add: comp_def c_value_contribOf assms)
  finally show ?thesis .
qed

lemma t2Sum_full:
  assumes "\<forall>j. reading p j \<noteq> None"
  shows "t2Sum p None
     = Some (\<Sum>k\<leftarrow>PARAM_KEYS. ((the (reading p k) - mean (PARAMS k)) / std (PARAMS k))\<^sup>2)"
proof -
  from complete_readings [OF assms] obtain a b c d e f where
    "reading p barrel_temp = Some a" "reading p screw_speed = Some b"
    "reading p melt_pressure = Some c" "reading p line_speed = Some d"
    "reading p die_pressure = Some e" "reading p wall_thickness = Some f"
    by blast
  then show ?thesis
    by (simp add: t2Sum_def PARAM_KEYS_def zscore_def nadd_def nsquare_def power2_eq_square
          del: PARAMS.simps)
qed

lemma rounding_gap:
  fixes a :: "param_key \<Rightarrow> real"
  shows "\<bar>(\<Sum>k\<leftarrow>PARAM_KEYS. toFixed 4 (a k)) - toFixed 3 (\<Sum>k\<leftarrow>PARAM_KEYS. a k)\<bar> \<le> 8 / 10000"
proof -
  have e4: "\<bar>toFixed 4 (a k) - a k\<bar> \<le> 1 / 20000" for k
    using toFixed_error [of 4 "a k"] by simp
  have e3: "\<bar>toFixed 3 (\<Sum>k\<leftarrow>PARAM_KEYS. a k) - (\<Sum>k\<leftarrow>PARAM_KEYS. a k)\<bar> \<le> 1 / 2000"
    using toFixed_error [of 3 "\<Sum>k\<leftarrow>PARAM_KEYS. a k"] by simp
  have s4: "(\<Sum>k\<leftarrow>PARAM_KEYS. toFixed 4 (a k))
      = toFixed 4 (a barrel_temp) + toFixed 4 (a screw_speed) + toFixed 4 (a melt_pressure)
        + toFixed 4 (a line_speed) + toFixed 4 (a die_pressure) + toFixed 4 (a wall_thickness)"
    by (simp add: PARAM_KEYS_def)
  have s1: "(\<Sum>k\<leftarrow>PARAM_KEYS. a k)
      = a barrel_temp + a screw_speed + a melt_pressure
        + a line_speed + a die_pressure + a wall_thickness"
    by (simp add: PARAM_KEYS_def)
  show ?thesis
    unfolding s4
    using e4 [of barrel_temp] e4 [of screw_speed] e4 [of melt_pressure]
          e4 [of line_speed] e4 [of die_pressure] e4 [of wall_thickness] e3 [unfolded s1]
    unfolding s1 by linarith
qed

lemma offset_rawVals:
  "rawVals None (9 / 16 ## sconst (1 / 2)) k
     = (if k = barrel_temp then 200375 / 1000 else mean (PARAMS k))"
  by (cases k) (simp_all add: rawVals_def PARAM_KEYS_def rawStep_def rawVal_def)

lemma offset_reading:
  "reading (fst (generatePoint t None (9 / 16 ## sconst (1 / 2)))) k
     = Some (if k = barrel_temp then 200375 / 1000 else mean (PARAMS k))"
  by (cases k) (simp_all add: generatePoint_fields offset_rawVals toFixed_def)

lemma offset_valuesSum:
  "valuesSum (computeContributions (fst (generatePoint t None (9 / 16 ## sconst (1 / 2)))))
     = Some (156 / 10000)"
  by (simp add: valuesSum_computeContributions generatePoint_complete offset_reading
        PARAM_KEYS_def toFixed_def power2_eq_square)

lemma offset_t2:
  "pt_t2 (fst (generatePoint t None (9 / 16 ## sconst (1 / 2)))) = Some (16 / 1000)"
  by (simp add: generatePoint_t2 t2Sum_full generatePoint_complete offset_reading
        PARAM_KEYS_def ntoFixed_def toFixed_def power2_eq_square)

text \<open>
  C1 (decomposition identity), as the claim states it, at a snapshot of \<open>generatePoint\<close>:
  with the draws \<open>9/16, 1/2, 1/2, \<dots>\<close> and no fault the barrel temperature reads
  200.375 and all other readings are nominal; the contribution values sum to 0.0156 while
  the stored \<^verbatim>\<open>t2\<close> is 0.016.
\<close>

theorem contributions_sum_differs_from_t2:
  "valuesSum (computeContributions (fst (generatePoint 1 None (9 / 16 ## sconst (1 / 2)))))
     = Some (156 / 10000)
   \<and> pt_t2 (fst (generatePoint 1 None (9 / 16 ## sconst (1 / 2)))) = Some (16 / 1000)
   \<and> valuesSum (computeContributions (fst (generatePoint 1 None (9 / 16 ## sconst (1 / 2)))))
     \<noteq> pt_t2 (fst (generatePoint 1 None (9 / 16 ## sconst (1 / 2))))"
  by (simp add: offset_valuesSum offset_t2)

text \<open>
  C1 as amended. For every snapshot of \<open>generatePoint\<close>, the contribution values are the
  squared standardized deviations rounded to four decimals, the stored \<^verbatim>\<open>t2\<close> is the
  sum of the unrounded squares rounded to three decimals, and so the sum of the
  contribution values and the stored \<^verbatim>\<open>t2\<close> differ by at most 0.0008.
\<close>

theorem contributions_sum_to_t2_within_rounding:
  "valuesSum (computeContributions (fst (generatePoint t af g)))
     = Some (\<Sum>k\<leftarrow>PARAM_KEYS. toFixed 4
         (((the (reading (fst (generatePoint t af g)) k) - mean (PARAMS k)) / std (PARAMS k))\<^sup>2))
   \<and> pt_t2 (fst (generatePoint t af g))
     = Some (toFixed 3 (\<Sum>k\<leftarrow>PARAM_KEYS.
         ((the (reading (fst (generatePoint t af g)) k) - mean (PARAMS k)) / std (PARAMS k))\<^sup>2))
   \<and> \<bar>the (valuesSum (computeContributions (fst (generatePoint t af g))))
        - the (pt_t2 (fst (generatePoint t af g)))\<bar> \<le> 8 / 10000"
proof -
  let ?p = "fst (generatePoint t af g)"
  have c: "\<forall>j. reading ?p j \<noteq> None" by (simp add: generatePoint_complete)
  have s: "valuesSum (computeContributions ?p)
     = Some (\<Sum>k\<leftarrow>PARAM_KEYS. toFixed 4 (((the (reading ?p k) - mean (PARAMS k)) / std (PARAMS k))\<^sup>2))"
    by (rule valuesSum_computeContributions [OF c])
  have t: "pt_t2 ?p
     = Some (toFixed 3 (\<Sum>k\<leftarrow>PARAM_KEYS. ((the (reading ?p k) - mean (PARAMS k)) / std (PARAMS k))\<^sup>2))"
    by (simp add: generatePoint_t2 t2Sum_full [OF c] ntoFixed_def)
  show ?thesis
    unfolding s t option.sel
    using rounding_gap [of "\<lambda>k. ((the (reading ?p k) - mean (PARAMS k)) / std (PARAMS k))\<^sup>2"]
    by simp
qed

theorem contributions_sum_to_t2_within_rounding_witness:
  "valuesSum (computeContributions (fst (generatePoint 1 None (9 / 16 ## sconst (1 / 2)))))
     = Some (156 / 10000)
   \<and> pt_t2 (fst (generatePoint 1 None (9 / 16 ## sconst (1 / 2)))) = Some (16 / 1000)
   \<and> \<bar>the (valuesSum (computeContributions (fst (generatePoint 1 None (9 / 16 ## sconst (1 / 2))))))
        - the (pt_t2 (fst (generatePoint 1 None (9 / 16 ## sconst (1 / 2)))))\<bar> \<le> 8 / 10000"
  using contributions_sum_to_t2_within_rounding [of 1 None "9 / 16 ## sconst (1 / 2)"]
  by (simp add: offset_valuesSum offset_t2)

section \<open>Claims about the out-of-control flags\<close>

lemma limits_ordered: "lcl (PARAMS k) < ucl (PARAMS k)"
  by (cases k) simp_all

lemma thinwall_at_lcl:
  "rawVals (Some ThinWall)
     (1 / 2 ## 1 / 2 ## 1 / 2 ## 1 / 2 ## 1 / 2 ## 1 / 2 ## 1 / 6 ## sconst (1 / 2)) wall_thickness
     = 105 / 100"
  by (simp add: rawVals_def PARAM_KEYS_def rawStep_def rawVal_def ThinWall_def)

lemma thinwall_below_lcl:
  "rawVals (Some ThinWall)
     (1 / 2 ## 1 / 2 ## 1 / 2 ## 1 / 2 ## 1 / 2 ## 1 / 2 ## 151 / 900 ## sconst (1 / 2)) wall_thickness
     = 10499 / 10000"
  by (simp add: rawVals_def PARAM_KEYS_def rawStep_def rawVal_def ThinWall_def)

lemma thinwall_just_below_lcl:
  "rawVals (Some ThinWall)
     (1 / 2 ## 1 / 2 ## 1 / 2 ## 1 / 2 ## 1 / 2 ## 1 / 2 ## 61 / 360 ## sconst (1 / 2)) wall_thickness
     = 104975 / 100000"
  by (simp add: rawVals_def PARAM_KEYS_def rawStep_def rawVal_def ThinWall_def)

text \<open>
  C8 (control-limit boundary convention), as the claim states it for a reading: with Thin
  Wall active and the draws \<open>1/2\<close> (six times) and \<open>61/360\<close> the value tested is 1.04975,
  below the lower limit, so the flag is set; the reading the snapshot stores is 1.05, the
  lower control limit itself.
\<close>

theorem stored_reading_at_lcl_flagged:
  "reading (fst (generatePoint 1 (Some ThinWall)
      (1 / 2 ## 1 / 2 ## 1 / 2 ## 1 / 2 ## 1 / 2 ## 1 / 2 ## 61 / 360 ## sconst (1 / 2)))) wall_thickness
     = Some (lcl (PARAMS wall_thickness))
   \<and> lcl (PARAMS wall_thickness) = 105 / 100
   \<and> anomaly (fst (generatePoint 1 (Some ThinWall)
      (1 / 2 ## 1 / 2 ## 1 / 2 ## 1 / 2 ## 1 / 2 ## 1 / 2 ## 61 / 360 ## sconst (1 / 2)))) wall_thickness"
  by (simp add: generatePoint_fields thinwall_just_below_lcl toFixed_def)

text \<open>
  C8 as amended. The flag that \<open>generatePoint\<close> stores for a parameter is
  \<open>x > UCL \<or> x < LCL\<close>, with strict inequalities, for the raw value \<open>x\<close> it tests before
  rounding: a raw value equal to the upper or to the lower control limit is not flagged.
  The reading stored beside the flag is that value rounded to three decimals, at most
  0.0005 away from it.
\<close>

theorem control_limit_boundary:
  "anomaly (fst (generatePoint t af g)) k
     = (rawVals af g k > ucl (PARAMS k) \<or> rawVals af g k < lcl (PARAMS k))
   \<and> (rawVals af g k = ucl (PARAMS k) \<or> rawVals af g k = lcl (PARAMS k)
        \<longrightarrow> \<not> anomaly (fst (generatePoint t af g)) k)
   \<and> (\<exists>x. reading (fst (generatePoint t af g)) k = Some x \<and> \<bar>x - rawVals af g k\<bar> \<le> 1 / 2000)"
  using limits_ordered [of k] toFixed_error [of 3 "rawVals af g k"]
  by (auto simp: generatePoint_fields)

theorem control_limit_boundary_witness:
  "rawVals (Some ThinWall)
     (1 / 2 ## 1 / 2 ## 1 / 2 ## 1 / 2 ## 1 / 2 ## 1 / 2 ## 1 / 6 ## sconst (1 / 2)) wall_thickness
     = lcl (PARAMS wall_thickness)
   \<and> \<not> anomaly (fst (generatePoint 1 (Some ThinWall)
        (1 / 2 ## 1 / 2 ## 1 / 2 ## 1 / 2 ## 1 / 2 ## 1 / 2 ## 1 / 6 ## sconst (1 / 2)))) wall_thickness"
  using control_limit_boundary [of 1 "Some ThinWall"
          "1 / 2 ## 1 / 2 ## 1 / 2 ## 1 / 2 ## 1 / 2 ## 1 / 2 ## 1 / 6 ## sconst (1 / 2)" wall_thickness]
  by (simp add: thinwall_at_lcl)

text \<open>
  C10 (flag and stored reading). In every snapshot of \<open>generatePoint\<close> the stored reading
  is the raw value rounded to three decimals and the stored flag is the test of the raw
  value against the limits; and there are snapshots whose flag is set although the test
  applied to the stored reading fails.
\<close>

theorem flag_computed_from_raw_value:
  "reading (fst (generatePoint t af g)) k = Some (toFixed 3 (rawVals af g k))
   \<and> anomaly (fst (generatePoint t af g)) k
       = (rawVals af g k > ucl (PARAMS k) \<or> rawVals af g k < lcl (PARAMS k))
   \<and> (\<exists>af' g' k'. anomaly (fst (generatePoint t af' g')) k'
         \<and> \<not> (the (reading (fst (generatePoint t af' g')) k') > ucl (PARAMS k')
              \<or> the (reading (fst (generatePoint t af' g')) k') < lcl (PARAMS k')))"
proof -
  let ?g = "1 / 2 ## 1 / 2 ## 1 / 2 ## 1 / 2 ## 1 / 2 ## 1 / 2 ## 151 / 900 ## sconst (1 / 2)"
  let ?p = "fst (generatePoint t (Some ThinWall) ?g)"
  have "anomaly ?p wall_thickness"
    by (simp add: generatePoint_fields thinwall_below_lcl)
  moreover have "reading ?p wall_thickness = Some (105 / 100)"
    by (simp add: generatePoint_fields thinwall_below_lcl toFixed_def)
  then have "\<not> (the (reading ?p wall_thickness) > ucl (PARAMS wall_thickness)
              \<or> the (reading ?p wall_thickness) < lcl (PARAMS wall_thickness))"
    by simp
  ultimately have "\<exists>af' g' k'. anomaly (fst (generatePoint t af' g')) k'
         \<and> \<not> (the (reading (fst (generatePoint t af' g')) k') > ucl (PARAMS k')
              \<or> the (reading (fst (generatePoint t af' g')) k') < lcl (PARAMS k'))"
    by blast
  then show ?thesis by (simp add: generatePoint_fields)
qed

theorem flag_computed_from_raw_value_witness:
  "anomaly (fst (generatePoint 1 (Some ThinWall)
      (1 / 2 ## 1 / 2 ## 1 / 2 ## 1 / 2 ## 1 / 2 ## 1 / 2 ## 151 / 900 ## sconst (1 / 2)))) wall_thickness
   \<and> reading (fst (generatePoint 1 (Some ThinWall)
      (1 / 2 ## 1 / 2 ## 1 / 2 ## 1 / 2 ## 1 / 2 ## 1 / 2 ## 151 / 900 ## sconst (1 / 2)))) wall_thickness
      = Some (105 / 100)
   \<and> lcl (PARAMS wall_thickness) = 105 / 100 \<and> ucl (PARAMS wall_thickness) = 135 / 100"
  using flag_computed_from_raw_value [of 1 "Some ThinWall"
          "1 / 2 ## 1 / 2 ## 1 / 2 ## 1 / 2 ## 1 / 2 ## 1 / 2 ## 151 / 900 ## sconst (1 / 2)" wall_thickness]
  by (simp add: thinwall_below_lcl toFixed_def)

section \<open>Properties of the stream controller\<close>

lemma countdownStep_fields:
  "data (countdownStep st) = data st"
  "alarmLog (countdownStep st) = alarmLog st"
  "tRef (countdownStep st) = tRef st"
  "rng (countdownStep st) = rng st"
  "running (countdownStep st) = running st"
  "tickCount (countdownStep st) = tickCount st"
  "faultCdRef (countdownStep st) = faultCdRef st - 1"
  "faultRef (countdownStep st) = (if faultCdRef st = 1 then None else faultRef st)"
  by (simp_all add: countdownStep_def)

lemma tick_fields:
  "tRef (tick st) = tRef st + 1"
  "tickCount (tick st) = tRef st + 1"
  "data (tick st) = sliceLast 120 (data st @ [tickPoint st])"
  "rng (tick st) = snd (generatePoint (tRef st + 1) (tickFault st) (rng st))"
  "faultRef (tick st) = tickFault st"
  "faultCdRef (tick st) = faultCdRef st - 1"
  "running (tick st) = running st"
  "alarmLog (tick st)
     = (if newAlarmsOf (tRef st + 1) (tickPoint st) \<noteq> []
        then take 80 (newAlarmsOf (tRef st + 1) (tickPoint st) @ alarmLog st)
        else alarmLog st)"
  by (simp_all add: tick_def tickFault_def tickPoint_def Let_def countdownStep_fields
        split: prod.splits)

lemma tickFault_eq:
  "tickFault st = (if faultCdRef st = 1 then None else faultRef st)"
  by (simp add: tickFault_def countdownStep_fields)

lemma sliceLast_snoc:
  "0 < n \<Longrightarrow> sliceLast n (sliceLast n xs @ [y]) = sliceLast n (xs @ [y])"
  by (cases "length xs \<le> n") (auto simp: sliceLast_def Suc_diff_le)

lemma length_sliceLast: "length (sliceLast n xs) = min n (length xs)"
  by (simp add: sliceLast_def)

lemma points_snoc: "points (Suc n) st = points n st @ [tickPoint ((tick ^^ n) st)]"
proof (induction n arbitrary: st)
  case 0
  show ?case by simp
next
  case (Suc n)
  have "points (Suc (Suc n)) st = tickPoint st # points (Suc n) (tick st)" by simp
  also have "\<dots> = tickPoint st # (points n (tick st) @ [tickPoint ((tick ^^ n) (tick st))])"
    by (simp only: Suc.IH)
  finally show ?case by (simp add: funpow_swap1)
qed

lemma length_points: "length (points n st) = n"
  by (induction n arbitrary: st) simp_all

lemma tRef_funpow: "tRef ((tick ^^ n) st) = tRef st + n"
  by (induction n) (simp_all add: tick_fields)

lemma pt_t_tickPoint: "pt_t (tickPoint st) = tRef st + 1"
  by (simp add: tickPoint_def generatePoint_fields)

lemma pt_t_points: "map pt_t (points n st) = [tRef st + 1 ..< tRef st + 1 + n]"
proof (induction n)
  case 0
  show ?case by simp
next
  case (Suc n)
  show ?case
    unfolding points_snoc
    by (simp add: Suc.IH pt_t_tickPoint tRef_funpow)
qed

lemma history_funpow:
  "length (data st) \<le> 120 \<Longrightarrow>
   data ((tick ^^ n) st) = sliceLast 120 (data st @ points n st)"
proof (induction n)
  case 0
  then show ?case by (simp add: sliceLast_def)
next
  case (Suc n)
  have "data ((tick ^^ Suc n) st)
          = sliceLast 120 (data ((tick ^^ n) st) @ [tickPoint ((tick ^^ n) st)])"
    by (simp add: tick_fields)
  also have "\<dots> = sliceLast 120 (sliceLast 120 (data st @ points n st)
                                   @ [tickPoint ((tick ^^ n) st)])"
    by (simp only: Suc.IH [OF Suc.prems])
  also have "\<dots> = sliceLast 120 ((data st @ points n st) @ [tickPoint ((tick ^^ n) st)])"
    by (rule sliceLast_snoc) simp
  finally show ?case
    unfolding points_snoc by simp
qed


lemma snd_rawVal_sconst: "snd (rawVal af k (sconst c)) = sconst c"
  by (simp add: rawVal_def Let_def split: option.splits)

lemma snd_fold_genStep_sconst: "snd (fold (genStep af) ks (p, sconst c)) = sconst c"
proof (induction ks arbitrary: p)
  case Nil
  show ?case by simp
next
  case (Cons k ks)
  have "snd (genStep af k (p, sconst c)) = sconst c"
    using snd_rawVal_sconst [of af k c]
    by (auto simp: genStep_def Let_def split: prod.splits)
  then obtain p1 where step: "genStep af k (p, sconst c) = (p1, sconst c)"
    by (cases "genStep af k (p, sconst c)") simp
  have "fold (genStep af) (k # ks) (p, sconst c) = fold (genStep af) ks (p1, sconst c)"
    by (simp only: fold_simps step)
  then show ?case by (simp only: Cons.IH)
qed

lemma snd_generatePoint_sconst: "snd (generatePoint t af (sconst c)) = sconst c"
proof -
  let ?p0 = "\<lparr>pt_t = t, reading = Map.empty, anomaly = (\<lambda>k. False), pt_t2 = None, t2_anomaly = False\<rparr>"
  obtain p' g' where A: "fold (genStep af) PARAM_KEYS (?p0, sconst c) = (p', g')"
    by (cases "fold (genStep af) PARAM_KEYS (?p0, sconst c)")
  then have "g' = sconst c" using snd_fold_genStep_sconst [of af PARAM_KEYS ?p0 c] by simp
  then show ?thesis by (simp add: generatePoint_def A Let_def)
qed

lemma rng_tick_sconst: "rng st = sconst c \<Longrightarrow> rng (tick st) = sconst c"
  by (simp add: tick_fields snd_generatePoint_sconst)

lemma rng_funpow_sconst: "rng st = sconst c \<Longrightarrow> rng ((tick ^^ n) st) = sconst c"
  by (induction n) (simp_all add: rng_tick_sconst)

lemma inject_countdown:
  assumes "1 \<le> f_duration flt"
  shows "faultCdRef ((tick ^^ j) (injectFault flt st)) = f_duration flt - j
       \<and> faultRef ((tick ^^ j) (injectFault flt st)) = (if j < f_duration flt then Some flt else None)"
proof (induction j)
  case 0
  show ?case using assms by (simp add: injectFault_def)
next
  case (Suc j)
  then show ?case by (auto simp: tick_fields tickFault_eq)
qed

lemma inject_tickFault:
  assumes "1 \<le> f_duration flt"
  shows "tickFault ((tick ^^ j) (injectFault flt st))
           = (if j + 1 < f_duration flt then Some flt else None)"
  using inject_countdown [OF assms, of j st] by (auto simp: tickFault_eq)

lemma tempspike_rawVals:
  "rawVals (Some TempSpike) (sconst (1 / 2)) k = (if k = barrel_temp then 222 else mean (PARAMS k))"
  by (cases k) (simp_all add: rawVals_def PARAM_KEYS_def rawStep_def rawVal_def TempSpike_def)

lemma tempspike_reading:
  "reading (fst (generatePoint t (Some TempSpike) (sconst (1 / 2)))) k
     = Some (if k = barrel_temp then 222 else mean (PARAMS k))"
  by (cases k) (simp_all add: generatePoint_fields tempspike_rawVals toFixed_def)

lemma tempspike_anomaly:
  "anomaly (fst (generatePoint t (Some TempSpike) (sconst (1 / 2)))) k = (k = barrel_temp)"
  by (cases k) (simp_all add: generatePoint_fields tempspike_rawVals)

lemma tempspike_t2_anomaly:
  "t2_anomaly (fst (generatePoint t (Some TempSpike) (sconst (1 / 2))))"
  by (simp add: generatePoint_t2 t2Sum_full generatePoint_complete tempspike_reading
        PARAM_KEYS_def T2_UCL_def power2_eq_square)

lemma nominal_anomaly:
  "anomaly (fst (generatePoint t None (sconst (1 / 2)))) k = False"
  by (cases k) (simp_all add: generatePoint_fields rawVals_nominal)

lemma started_fields:
  "data (clickInject flt (toggleRunning (initial g))) = []"
  "alarmLog (clickInject flt (toggleRunning (initial g))) = []"
  "tRef (clickInject flt (toggleRunning (initial g))) = 0"
  "rng (clickInject flt (toggleRunning (initial g))) = g"
  "clickInject flt (toggleRunning (initial g)) = injectFault flt (toggleRunning (initial g))"
  by (simp_all add: clickInject_def toggleRunning_def initial_def injectFault_def)

lemma tempspike_tickPoint:
  "tickPoint ((tick ^^ j) (clickInject TempSpike (toggleRunning (initial (sconst (1 / 2))))))
     = fst (generatePoint (j + 1) (if j + 1 < 5 then Some TempSpike else None) (sconst (1 / 2)))"
proof -
  let ?s = "clickInject TempSpike (toggleRunning (initial (sconst (1 / 2))))"
  have d: "1 \<le> f_duration TempSpike" "f_duration TempSpike = 5" by (simp_all add: TempSpike_def)
  have f: "tickFault ((tick ^^ j) ?s) = (if j + 1 < 5 then Some TempSpike else None)"
    unfolding started_fields(5) using inject_tickFault [OF d(1)] by (simp add: d(2))
  have t: "tRef ((tick ^^ j) ?s) = j"
    by (simp add: tRef_funpow started_fields(3))
  have r: "rng ((tick ^^ j) ?s) = sconst (1 / 2)"
    by (rule rng_funpow_sconst) (simp add: started_fields(4))
  show ?thesis
    by (simp only: tickPoint_def f t r)
qed

lemma newAlarmsOf_ids:
  "map a_id (newAlarmsOf t pt)
     = map (\<lambda>k. (t, Some k)) (filter (anomaly pt) PARAM_KEYS)
       @ (if t2_anomaly pt then [(t, None)] else [])"
proof -
  have "map a_id (concat (map (\<lambda>k. if anomaly pt k then [paramAlarm t pt k] else []) ks))
          = map (\<lambda>k. (t, Some k)) (filter (anomaly pt) ks)" for ks
    by (induction ks) (simp_all add: paramAlarm_def)
  then show ?thesis by (simp add: newAlarmsOf_def)
qed

lemma tempspike_alarm_ids:
  "map a_id (newAlarmsOf t (fst (generatePoint t' (Some TempSpike) (sconst (1 / 2)))))
     = [(t, Some barrel_temp), (t, None)]"
  by (simp add: newAlarmsOf_ids tempspike_anomaly tempspike_t2_anomaly PARAM_KEYS_def)

lemma tempspike_newAlarms:
  "newAlarmsOf t (fst (generatePoint t' (Some TempSpike) (sconst (1 / 2)))) \<noteq> []"
  "length (newAlarmsOf t (fst (generatePoint t' (Some TempSpike) (sconst (1 / 2))))) = 2"
  using arg_cong [OF tempspike_alarm_ids [of t t'], of length] by auto

lemma tempspike_alarmLog:
  assumes "tickPoint st = fst (generatePoint t' (Some TempSpike) (sconst (1 / 2)))"
      and "length (alarmLog st) \<le> 78"
  shows "alarmLog (tick st) = newAlarmsOf (tRef st + 1) (tickPoint st) @ alarmLog st"
  using assms(2) by (simp add: tick_fields assms(1) tempspike_newAlarms)

section \<open>Claims about the stream controller\<close>

text \<open>
  C9 (bounded history). From a state whose history holds at most 120 snapshots, after any
  number of ticks the history holds at most 120 snapshots and is the last 120 of the old
  history followed by the new snapshots in the order they were produced; after more than
  120 ticks it holds exactly 120 snapshots, the last 120 produced, with consecutive tick
  indices ending at the latest one.
\<close>

theorem bounded_history:
  assumes "length (data st) \<le> 120"
  shows "length (data ((tick ^^ n) st)) \<le> 120
       \<and> data ((tick ^^ n) st) = sliceLast 120 (data st @ points n st)
       \<and> (120 < n \<longrightarrow>
            length (data ((tick ^^ n) st)) = 120
          \<and> data ((tick ^^ n) st) = drop (n - 120) (points n st)
          \<and> map pt_t (data ((tick ^^ n) st)) = [tRef st + n - 119 ..< tRef st + n + 1])"
proof -
  have h: "data ((tick ^^ n) st) = sliceLast 120 (data st @ points n st)"
    by (rule history_funpow [OF assms])
  have l: "length (data ((tick ^^ n) st)) \<le> 120"
    by (simp add: h length_sliceLast)
  have big: "length (data ((tick ^^ n) st)) = 120
          \<and> data ((tick ^^ n) st) = drop (n - 120) (points n st)
          \<and> map pt_t (data ((tick ^^ n) st)) = [tRef st + n - 119 ..< tRef st + n + 1]"
    if n: "120 < n"
  proof -
    have d: "data ((tick ^^ n) st) = drop (n - 120) (points n st)"
      using n by (simp add: h sliceLast_def length_points)
    have "map pt_t (data ((tick ^^ n) st)) = drop (n - 120) (map pt_t (points n st))"
      by (simp add: d drop_map)
    also have "\<dots> = [tRef st + 1 + (n - 120) ..< tRef st + 1 + n]"
      using n by (simp add: pt_t_points)
    also have "\<dots> = [tRef st + n - 119 ..< tRef st + n + 1]"
    proof -
      have "tRef st + 1 + (n - 120) = tRef st + n - 119" using n by arith
      moreover have "tRef st + 1 + n = tRef st + n + 1" by arith
      ultimately show ?thesis by (simp only:)
    qed
    finally show ?thesis
      using n by (simp add: d length_points)
  qed
  show ?thesis using h l big by blast
qed

theorem bounded_history_witness:
  "length (data ((tick ^^ 121) (initial (sconst (1 / 2))))) = 120
   \<and> data ((tick ^^ 121) (initial (sconst (1 / 2))))
       = drop 1 (points 121 (initial (sconst (1 / 2))))
   \<and> map pt_t (data ((tick ^^ 121) (initial (sconst (1 / 2))))) = [2 ..< 122]"
proof -
  have h: "length (data (initial (sconst (1 / 2)))) \<le> 120" by (simp add: initial_def)
  have t: "tRef (initial (sconst (1 / 2))) = 0" by (simp add: initial_def)
  have n: "(120::nat) < 121" by simp
  have e: "121 - 120 = (1::nat)" "0 + 121 - 119 = (2::nat)" "0 + 121 + 1 = (122::nat)"
    by simp_all
  have "length (data ((tick ^^ 121) (initial (sconst (1 / 2))))) = 120
      \<and> data ((tick ^^ 121) (initial (sconst (1 / 2))))
          = drop (121 - 120) (points 121 (initial (sconst (1 / 2))))
      \<and> map pt_t (data ((tick ^^ 121) (initial (sconst (1 / 2)))))
          = [tRef (initial (sconst (1 / 2))) + 121 - 119
               ..< tRef (initial (sconst (1 / 2))) + 121 + 1]"
    using bounded_history [OF h, of 121] n by blast
  then show ?thesis
    unfolding t e .
qed

text \<open>
  C4 (fault injection arming), evaluated where the claim fails. Temp Spike has duration 5.
  After start and injection, with every draw equal to 1/2, the history after five ticks
  shows the bias of 22 on the barrel temperature in the snapshots 1 to 4 only; the
  countdown runs 5, 4, 3, 2, 1, 0, one step per tick, and the fifth tick clears the fault
  before it generates its snapshot, which reads the nominal 200.
\<close>

theorem tempspike_biases_four_snapshots:
  "f_duration TempSpike = 5
   \<and> map (\<lambda>p. (pt_t p, reading p barrel_temp, anomaly p barrel_temp))
        (data ((tick ^^ 5) (clickInject TempSpike (toggleRunning (initial (sconst (1 / 2)))))))
      = [(1, Some 222, True), (2, Some 222, True), (3, Some 222, True), (4, Some 222, True),
         (5, Some 200, False)]
   \<and> map (\<lambda>j. faultCdRef ((tick ^^ j) (clickInject TempSpike (toggleRunning (initial (sconst (1 / 2)))))))
        [0, 1, 2, 3, 4, 5] = [5, 4, 3, 2, 1, 0]
   \<and> faultRef ((tick ^^ 4) (clickInject TempSpike (toggleRunning (initial (sconst (1 / 2)))))) = Some TempSpike
   \<and> faultRef ((tick ^^ 5) (clickInject TempSpike (toggleRunning (initial (sconst (1 / 2)))))) = None"
proof -
  let ?s = "clickInject TempSpike (toggleRunning (initial (sconst (1 / 2))))"
  have d: "1 \<le> f_duration TempSpike" "f_duration TempSpike = 5" by (simp_all add: TempSpike_def)
  have h: "data ((tick ^^ 5) ?s) = points 5 ?s"
    using history_funpow [of ?s 5]
    by (simp add: started_fields(1) sliceLast_def length_points)
  have p: "points 5 ?s = map (\<lambda>j. tickPoint ((tick ^^ j) ?s)) [0, 1, 2, 3, 4]"
    by (simp add: eval_nat_numeral funpow_swap1)
  have c: "faultCdRef ((tick ^^ j) ?s) = 5 - j"
      "faultRef ((tick ^^ j) ?s) = (if j < 5 then Some TempSpike else None)" for j
    using inject_countdown [OF d(1), of j "toggleRunning (initial (sconst (1 / 2)))"]
    by (simp_all add: started_fields(5) d(2))
  show ?thesis
    unfolding h p
    by (simp add: d(2) c tempspike_tickPoint generatePoint_fields(3) tempspike_reading
          tempspike_anomaly nominal_reading nominal_anomaly)
qed







text \<open>
  C6 (alarm events only on new excursions), as the claim states it, after start and
  injection of Temp Spike with every draw equal to 1/2: the barrel temperature is out of
  control in the first and in the second snapshot, and the second tick logs an event for
  it again.
\<close>

theorem repeated_alarm_for_same_parameter:
  "anomaly (tickPoint (clickInject TempSpike (toggleRunning (initial (sconst (1 / 2)))))) barrel_temp
   \<and> anomaly (tickPoint (tick (clickInject TempSpike (toggleRunning (initial (sconst (1 / 2))))))) barrel_temp
   \<and> map a_id (alarmLog (tick (tick (clickInject TempSpike (toggleRunning (initial (sconst (1 / 2))))))))
       = [(2, Some barrel_temp), (2, None), (1, Some barrel_temp), (1, None)]"
proof -
  let ?s = "clickInject TempSpike (toggleRunning (initial (sconst (1 / 2))))"
  obtain t0 where p0: "tickPoint ?s = fst (generatePoint t0 (Some TempSpike) (sconst (1 / 2)))"
    using tempspike_tickPoint [of 0] by simp
  obtain t1 where p1: "tickPoint (tick ?s) = fst (generatePoint t1 (Some TempSpike) (sconst (1 / 2)))"
    using tempspike_tickPoint [of 1] by simp
  have a1: "alarmLog (tick ?s) = newAlarmsOf (tRef ?s + 1) (tickPoint ?s) @ alarmLog ?s"
    by (rule tempspike_alarmLog [OF p0]) (simp add: started_fields(2))
  have l1: "length (alarmLog (tick ?s)) = 2"
    unfolding a1 by (simp add: p0 tempspike_newAlarms started_fields(2))
  have a2: "alarmLog (tick (tick ?s))
              = newAlarmsOf (tRef (tick ?s) + 1) (tickPoint (tick ?s)) @ alarmLog (tick ?s)"
    by (rule tempspike_alarmLog [OF p1]) (simp add: l1)
  have ids: "map a_id (alarmLog (tick (tick ?s)))
      = [(2, Some barrel_temp), (2, None), (1, Some barrel_temp), (1, None)]"
    unfolding a2 a1
    by (simp add: p0 p1 tempspike_alarm_ids tick_fields started_fields(2,3))
  show ?thesis
    using ids by (simp add: p0 p1 tempspike_anomaly)
qed

text \<open>
  C6 as amended. Each tick logs one event for every parameter whose flag is set in the
  snapshot of this tick, in the order of \<open>PARAM_KEYS\<close>, followed by one event for the
  joint statistic when its flag is set; the events are put in front of the log, which is
  cut to 80 entries. The previous snapshot plays no part.
\<close>

theorem alarm_per_flagged_parameter:
  "alarmLog (tick st)
     = (if newAlarmsOf (tRef st + 1) (tickPoint st) = [] then alarmLog st
        else take 80 (newAlarmsOf (tRef st + 1) (tickPoint st) @ alarmLog st))
   \<and> map a_id (newAlarmsOf (tRef st + 1) (tickPoint st))
     = map (\<lambda>k. (tRef st + 1, Some k)) (filter (anomaly (tickPoint st)) PARAM_KEYS)
       @ (if t2_anomaly (tickPoint st) then [(tRef st + 1, None)] else [])"
  by (simp add: tick_fields newAlarmsOf_ids)

theorem alarm_per_flagged_parameter_witness:
  "map a_id (alarmLog (tick (tick (clickInject TempSpike (toggleRunning (initial (sconst (1 / 2))))))))
     = [(2, Some barrel_temp), (2, None)]
       @ map a_id (alarmLog (tick (clickInject TempSpike (toggleRunning (initial (sconst (1 / 2)))))))"
proof -
  let ?s = "clickInject TempSpike (toggleRunning (initial (sconst (1 / 2))))"
  obtain t0 where p0: "tickPoint ?s = fst (generatePoint t0 (Some TempSpike) (sconst (1 / 2)))"
    using tempspike_tickPoint [of 0] by simp
  obtain t1 where p1: "tickPoint (tick ?s) = fst (generatePoint t1 (Some TempSpike) (sconst (1 / 2)))"
    using tempspike_tickPoint [of 1] by simp
  have a1: "alarmLog (tick ?s) = newAlarmsOf (tRef ?s + 1) (tickPoint ?s) @ alarmLog ?s"
    by (rule tempspike_alarmLog [OF p0]) (simp add: started_fields(2))
  have l1: "length (alarmLog (tick ?s)) = 2"
    unfolding a1 by (simp add: p0 tempspike_newAlarms started_fields(2))
  have n1: "newAlarmsOf (tRef (tick ?s) + 1) (tickPoint (tick ?s)) \<noteq> []"
       "length (newAlarmsOf (tRef (tick ?s) + 1) (tickPoint (tick ?s))) = 2"
    by (simp_all add: p1 tempspike_newAlarms)
  have "alarmLog (tick (tick ?s))
          = newAlarmsOf (tRef (tick ?s) + 1) (tickPoint (tick ?s)) @ alarmLog (tick ?s)
      \<and> map a_id (newAlarmsOf (tRef (tick ?s) + 1) (tickPoint (tick ?s)))
          = [(tRef (tick ?s) + 1, Some barrel_temp), (tRef (tick ?s) + 1, None)]"
    using alarm_per_flagged_parameter [of "tick ?s"] n1 l1
    by (simp add: p1 tempspike_anomaly tempspike_t2_anomaly PARAM_KEYS_def)
  then show ?thesis
    by (simp add: tick_fields started_fields(3))
qed

end
